theory Spec2Isabelle
  imports Main
begin

section \<open>The xl converter: data model\<close>

text \<open>
  The program reads a workbook, walks the columns of the sheets in scope, builds a
  header-keyed table or a column-major matrix per sheet, and prints the result as JSON, Go
  syntax or CSV. The embedding follows \<open>main\<close> of \<open>main.go\<close> from the resolution of the
  mode (line 53) to the last write (line 207).

  Cells and sheet names are \<open>string\<close>s; a character stands for one code point below 256.
  Go's \<open>int\<close> counters are \<open>int\<close>s (a workbook cannot hold the \<open>2^63\<close> cells an overflow
  would need). The opened workbook is a value: the sheet names in order, and for each name
  what \<open>Cols\<close> and then each \<open>Rows\<close> call return, error included. Opening the input and
  output streams and the write calls of the operating system are outside the model.
\<close>

datatype Mode = Map | MultiSheet | Matrix | Stats

record Flags =
  allSheets :: bool
  useSheet :: string
  noColNames :: bool
  stripColNames :: bool
  tableMode :: bool
  statsMode :: bool
  asJson :: bool
  asGo :: bool
  asCSV :: bool

text \<open>One operand of a \<open>Println\<close> call; a printed line is the list of its operands.\<close>

datatype Arg = Str string | Num int

text \<open>The two per-sheet collections: \<open>bookTab\<close> and \<open>bookMat\<close>.\<close>

type_synonym TabBook = "string \<rightharpoonup> (string \<rightharpoonup> string list)"
type_synonym MatBook = "string \<rightharpoonup> string list list"

datatype Table = OfTab TabBook | OfMat MatBook

text \<open>What is handed to the buffered writer \<open>out\<close>, call by call.\<close>

datatype OutItem =
    Println "Arg list"
  | JsonEncode Table
  | GoSyntax Table
  | CsvWriteAll "string list list"

text \<open>
  A column as the iterator delivers it: the cells and the error of \<open>cols.Rows()\<close>.
  \<open>colsOf\<close> is \<open>xf.Cols(sheet)\<close>: an error text or the column stream.
\<close>

type_synonym ColItem = "string list \<times> string option"

record Workbook =
  sheetList :: "string list"
  colsOf :: "string \<Rightarrow> string + ColItem list"

record State =
  bookTab :: TabBook
  bookMat :: MatBook
  nSheets :: int
  nRows :: int
  nCols :: int
  sheetFound :: bool
  rowSize :: int
  out :: "OutItem list"
  errOut :: "Arg list list"

text \<open>
  How a run ends: the exit status, the lines on the diagnostic stream and what the writer
  \<open>out\<close> received. On a fatal exit the writer is not flushed, so \<open>stdout\<close> is then an upper
  bound of what reaches the primary output.
\<close>

record Result =
  exitCode :: nat
  stderr :: "Arg list list"
  stdout :: "OutItem list"

section \<open>Mode selection\<close>

definition selectMode :: "Flags \<Rightarrow> Mode" where
  "selectMode f =
     (let mode = Map;
          mode = (if tableMode f \<or> stripColNames f \<or> asCSV f then Matrix else mode);
          mode = (if statsMode f then Stats else mode);
          mode = (if \<not> asJson f \<and> \<not> asGo f \<and> \<not> asCSV f then Stats else mode)
      in mode)"

section \<open>Fatal exits\<close>

text \<open>
  \<open>fatal\<close> prints its operands on the diagnostic stream and calls \<open>os.Exit(1)\<close>, which
  skips the deferred \<open>Flush\<close>: of the items in \<open>stdout\<close> below only what the buffered writer
  had already passed on when its buffer filled reaches the primary output. \<open>stdout = []\<close>
  therefore means that nothing was written.
\<close>

definition fatal :: "State \<Rightarrow> Arg list \<Rightarrow> Result" where
  "fatal st s = \<lparr>exitCode = 1, stderr = errOut st @ [s], stdout = out st\<rparr>"

definition efatal :: "State \<Rightarrow> string \<Rightarrow> Arg list \<Rightarrow> Result" where
  "efatal st err s = fatal st ([Str ''err:''] @ s @ [Str ''->'', Str err])"

text \<open>A run-time panic of Go (nil map write, index out of range): status 2.\<close>

definition panic :: "State \<Rightarrow> Result" where
  "panic st = \<lparr>exitCode = 2, stderr = errOut st @ [[Str ''panic: runtime error'']], stdout = out st\<rparr>"

section \<open>The column loop\<close>

text \<open>\<open>unicode.IsSpace\<close> on the code points below 256, and \<open>strings.TrimSpace\<close>.\<close>

definition isSpace :: "char \<Rightarrow> bool" where
  "isSpace c \<longleftrightarrow> c \<in> {CHR 0x09, CHR 0x0A, CHR 0x0B, CHR 0x0C, CHR 0x0D, CHR 0x20, CHR 0x85, CHR 0xA0}"

definition TrimSpace :: "string \<Rightarrow> string" where
  "TrimSpace s = rev (dropWhile isSpace (rev (dropWhile isSpace s)))"

text \<open>The \<open>switch mode\<close> of lines 109 to 127.\<close>

definition shapeStep :: "Mode \<Rightarrow> string \<Rightarrow> string list \<Rightarrow> State \<Rightarrow> Result + State" where
  "shapeStep mode sheet col st =
     (case mode of
        Map \<Rightarrow>
          (if length col < 1 then
             Inl (fatal st [Str ''can't use Map mode with no title or values; col #:'',
                            Num (nCols st - 1), Str ''sheet:'', Str sheet])
           else if length col < 2 then
             (case bookTab st sheet of
                None \<Rightarrow> Inl (panic st)
              | Some m \<Rightarrow> Inr (st\<lparr>bookTab := (bookTab st)(sheet \<mapsto> m(col ! 0 \<mapsto> []))\<rparr>))
           else
             (case bookTab st sheet of
                None \<Rightarrow> Inl (panic st)
              | Some m \<Rightarrow> Inr (st\<lparr>bookTab := (bookTab st)(sheet \<mapsto> m(col ! 0 \<mapsto> drop 1 col))\<rparr>)))
      | Matrix \<Rightarrow>
          Inr (st\<lparr>bookMat := (bookMat st)
                 (sheet \<mapsto> (case bookMat st sheet of None \<Rightarrow> [] | Some cs \<Rightarrow> cs) @ [col])\<rparr>)
      | _ \<Rightarrow> Inr st)"

text \<open>The \<open>range col\<close> loop of lines 129 to 136; \<open>rowi\<close> counts the cells already seen.\<close>

fun cellLoop :: "Flags \<Rightarrow> Mode \<Rightarrow> string list \<Rightarrow> nat \<Rightarrow> string list \<Rightarrow> State \<Rightarrow> State" where
  "cellLoop f mode col rowi [] st = st"
| "cellLoop f mode col rowi (rowCell # rest) st =
     (let st1 =
        (if \<not> noColNames f \<and> rowi = 0 \<and> length (TrimSpace rowCell) > 0 then
           (if mode = Stats then
              st\<lparr>out := out st @ [Println [Str ''Column name:'',
                     Str ([CHR 0x22] @ rowCell @ [CHR 0x22]), Str ''at col#'',
                     Num (nCols st - 1), Str ''with'', Num (int (length col)), Str ''rows'']]\<rparr>
            else st)
         else st)
      in cellLoop f mode col (Suc rowi) rest (st1\<lparr>nRows := nRows st1 + 1\<rparr>))"

text \<open>One pass of the \<open>cols.Next()\<close> loop, lines 103 to 136.\<close>

definition colStep :: "Flags \<Rightarrow> Mode \<Rightarrow> string \<Rightarrow> ColItem \<Rightarrow> State \<Rightarrow> Result + State" where
  "colStep f mode sheet item st =
     (let st1 = st\<lparr>nCols := nCols st + 1\<rparr>;
          col = fst item;
          st2 = st1\<lparr>rowSize := int (length col)\<rparr>
      in case snd item of
           Some err \<Rightarrow> Inl (efatal st2 err [Str ''could not get rows of col for sheet'', Str sheet])
         | None \<Rightarrow>
             (case shapeStep mode sheet col st2 of
                Inl r \<Rightarrow> Inl r
              | Inr st3 \<Rightarrow> Inr (cellLoop f mode col 0 col st3)))"

fun colLoop :: "Flags \<Rightarrow> Mode \<Rightarrow> string \<Rightarrow> ColItem list \<Rightarrow> State \<Rightarrow> Result + State" where
  "colLoop f mode sheet [] st = Inr st"
| "colLoop f mode sheet (item # items) st =
     (case colStep f mode sheet item st of
        Inl r \<Rightarrow> Inl r
      | Inr st1 \<Rightarrow> colLoop f mode sheet items st1)"

section \<open>The sheet loop\<close>

text \<open>The body of the sheet loop for a sheet that is not skipped, lines 95 to 137.\<close>

definition sheetStep :: "Flags \<Rightarrow> Mode \<Rightarrow> Workbook \<Rightarrow> string \<Rightarrow> State \<Rightarrow> Result + State" where
  "sheetStep f mode wb sheet st =
     (let st1 = st\<lparr>sheetFound := True\<rparr>;
          st2 = st1\<lparr>bookTab := (bookTab st1)(sheet \<mapsto> Map.empty)\<rparr>;
          st3 = st2\<lparr>bookMat := (bookMat st2)(sheet \<mapsto> [])\<rparr>;
          st4 = st3\<lparr>nSheets := nSheets st3 + 1\<rparr>
      in case colsOf wb sheet of
           Inl err \<Rightarrow> Inl (efatal st4 err [Str ''could not get columns for sheet'', Str sheet])
         | Inr items \<Rightarrow> colLoop f mode sheet items st4)"

text \<open>Lines 91 to 142, with the \<open>continue\<close> of line 93 and the \<open>break\<close> of line 140.\<close>

fun sheetLoop :: "Flags \<Rightarrow> Mode \<Rightarrow> Workbook \<Rightarrow> string list \<Rightarrow> State \<Rightarrow> Result + State" where
  "sheetLoop f mode wb [] st = Inr st"
| "sheetLoop f mode wb (sheet # rest) st =
     (if useSheet f \<noteq> [] \<and> sheet \<noteq> useSheet f then sheetLoop f mode wb rest st
      else
        (case sheetStep f mode wb sheet st of
           Inl r \<Rightarrow> Inl r
         | Inr st1 \<Rightarrow> if \<not> allSheets f then Inr st1 else sheetLoop f mode wb rest st1))"

section \<open>Transposition for CSV\<close>

text \<open>Lines 184 to 189: the longest column.\<close>

definition maxRows :: "string list list \<Rightarrow> nat" where
  "maxRows records =
     fold (\<lambda>ci nRows. if length (records ! ci) > nRows then length (records ! ci) else nRows)
          [0..<length records] 0"

text \<open>The store \<open>tab[ri][ci] = v\<close>; Go panics when an index is out of range.\<close>

definition setCell :: "string list list \<Rightarrow> nat \<Rightarrow> nat \<Rightarrow> string \<Rightarrow> string list list option" where
  "setCell tab ri ci v =
     (if ri < length tab \<and> ci < length (tab ! ri) then Some (tab[ri := (tab ! ri)[ci := v]])
      else None)"

text \<open>The inner loop of lines 197 to 202 over the row indices still to visit.\<close>

fun copyCol :: "bool \<Rightarrow> string list list \<Rightarrow> nat \<Rightarrow> nat list \<Rightarrow> string list list
                  \<Rightarrow> string list list option" where
  "copyCol noTitles records ci [] tab = Some tab"
| "copyCol noTitles records ci (ri # ris) tab =
     (if noTitles \<and> ri = 0 then copyCol noTitles records ci ris tab
      else
        (case setCell tab ri ci (records ! ci ! ri) of
           None \<Rightarrow> None
         | Some tab1 \<Rightarrow> copyCol noTitles records ci ris tab1))"

text \<open>The outer loop of line 196 over the column indices still to visit.\<close>

fun copyCols :: "bool \<Rightarrow> string list list \<Rightarrow> nat list \<Rightarrow> string list list
                   \<Rightarrow> string list list option" where
  "copyCols noTitles records [] tab = Some tab"
| "copyCols noTitles records (ci # cis) tab =
     (case copyCol noTitles records ci [0..<length (records ! ci)] tab of
        None \<Rightarrow> None
      | Some tab1 \<Rightarrow> copyCols noTitles records cis tab1)"

text \<open>
  Lines 183 to 203. The first argument is the value of \<open>*noColNames\<close>, the flag that line
  198 tests. \<open>None\<close> is an index out of range.
\<close>

definition transposeTab :: "bool \<Rightarrow> string list list \<Rightarrow> string list list option" where
  "transposeTab noTitles records =
     (let nCols = length records;
          nRows = maxRows records;
          tab = replicate nRows (replicate nCols [])
      in copyCols noTitles records [0..<length records] tab)"

section \<open>Emission and the whole run\<close>

definition writeOut :: "State \<Rightarrow> OutItem \<Rightarrow> State" where
  "writeOut st x = st\<lparr>out := out st @ [x]\<rparr>"

text \<open>Normal return of \<open>main\<close>: the deferred \<open>Flush\<close> runs and the status is 0.\<close>

definition returnMain :: "State \<Rightarrow> Result" where
  "returnMain st = \<lparr>exitCode = 0, stderr = errOut st, stdout = out st\<rparr>"

text \<open>Lines 150 to 208.\<close>

definition emit :: "Flags \<Rightarrow> Mode \<Rightarrow> string list \<Rightarrow> State \<Rightarrow> Result" where
  "emit f mode sheets st =
     (if asJson f then
        (case mode of
           Matrix \<Rightarrow> returnMain (writeOut st (JsonEncode (OfMat (bookMat st))))
         | Map \<Rightarrow> returnMain (writeOut st (JsonEncode (OfTab (bookTab st))))
         | _ \<Rightarrow> returnMain st)
      else if asGo f then
        (case mode of
           Matrix \<Rightarrow> returnMain (writeOut st (GoSyntax (OfMat (bookMat st))))
         | Map \<Rightarrow> returnMain (writeOut st (GoSyntax (OfTab (bookTab st))))
         | _ \<Rightarrow> returnMain st)
      else if asCSV f then
        (case sheets of
           [] \<Rightarrow> panic st
         | defaultSheet # _ \<Rightarrow>
             (let records = (case bookMat st defaultSheet of None \<Rightarrow> [] | Some cs \<Rightarrow> cs)
              in case transposeTab (noColNames f) records of
                   None \<Rightarrow> panic st
                 | Some tab \<Rightarrow> returnMain (writeOut st (CsvWriteAll tab))))
      else returnMain st)"

definition initState :: State where
  "initState = \<lparr>bookTab = Map.empty, bookMat = Map.empty, nSheets = 0, nRows = 0, nCols = 0,
                sheetFound = False, rowSize = 0, out = [], errOut = []\<rparr>"

text \<open>Line 144.\<close>

definition infoLine :: "State \<Rightarrow> Arg list" where
  "infoLine st = [Str ''info: #sheets read:'', Num (nSheets st), Str ''#cols:'', Num (nCols st),
                  Str ''#elements:'', Num (nRows st), Str ''#nrows:'', Num (rowSize st)]"

definition run :: "Flags \<Rightarrow> Workbook \<Rightarrow> Result" where
  "run f wb =
     (let mode = selectMode f;
          sheets = sheetList wb
      in case sheetLoop f mode wb sheets initState of
           Inl r \<Rightarrow> r
         | Inr st \<Rightarrow>
             (let st1 = st\<lparr>errOut := errOut st @ [infoLine st]\<rparr>
              in if \<not> sheetFound st1 then
                   fatal st1 [Str ''could not find sheet by name of:'', Str (useSheet f)]
                 else emit f mode sheets st1))"

section \<open>The processing scope and its columns\<close>

text \<open>
  The sheets the loop works on: those the \<open>-sheet\<close> name admits, and only the first of
  them unless \<open>-all\<close> is given. \<open>scopeLoop\<close> is the sheet loop without \<open>continue\<close> and
  \<open>break\<close>, run over that list; \<open>sheetLoop_scope\<close> below shows the two agree.
\<close>

definition scope :: "Flags \<Rightarrow> string list \<Rightarrow> string list" where
  "scope f sheets =
     (let named = filter (\<lambda>sheet. useSheet f = [] \<or> sheet = useSheet f) sheets
      in if allSheets f then named else take 1 named)"

fun scopeLoop :: "Flags \<Rightarrow> Mode \<Rightarrow> Workbook \<Rightarrow> string list \<Rightarrow> State \<Rightarrow> Result + State" where
  "scopeLoop f mode wb [] st = Inr st"
| "scopeLoop f mode wb (sheet # rest) st =
     (case sheetStep f mode wb sheet st of
        Inl r \<Rightarrow> Inl r
      | Inr st1 \<Rightarrow> scopeLoop f mode wb rest st1)"

text \<open>The columns a sheet delivers, and those of a list of sheets, in processing order.\<close>

definition colsIn :: "Workbook \<Rightarrow> string \<Rightarrow> string list list" where
  "colsIn wb sheet = (case colsOf wb sheet of Inl err \<Rightarrow> [] | Inr items \<Rightarrow> map fst items)"

definition scopeCols :: "Workbook \<Rightarrow> string list \<Rightarrow> string list list" where
  "scopeCols wb sheets = concat (map (colsIn wb) sheets)"

text \<open>The cell count of the last column, 0 when there is none.\<close>

definition lastLen :: "string list list \<Rightarrow> nat" where
  "lastLen cols = (if cols = [] then 0 else length (last cols))"

text \<open>
  A column that Map mode accepts (read without error, at least one cell), a sheet all of
  whose columns are such, and a sheet that is read without error whatever its columns hold.
\<close>

definition okItem :: "ColItem \<Rightarrow> bool" where
  "okItem item \<longleftrightarrow> snd item = None \<and> fst item \<noteq> []"

definition okSheet :: "Workbook \<Rightarrow> string \<Rightarrow> bool" where
  "okSheet wb sheet = (case colsOf wb sheet of Inl err \<Rightarrow> False | Inr items \<Rightarrow> list_all okItem items)"

definition readable :: "Workbook \<Rightarrow> string \<Rightarrow> bool" where
  "readable wb sheet =
     (case colsOf wb sheet of Inl err \<Rightarrow> False | Inr items \<Rightarrow> list_all (\<lambda>item. snd item = None) items)"

text \<open>
  The entry a column contributes in Map mode, and the table of a list of columns: a later
  column overrides an earlier one with the same header.
\<close>

definition entryOf :: "string list \<Rightarrow> string \<times> string list" where
  "entryOf col = (col ! 0, drop 1 col)"

definition mapTable :: "string list list \<Rightarrow> (string \<rightharpoonup> string list)" where
  "mapTable cols = map_of (rev (map entryOf cols))"

section \<open>Sample inputs\<close>

definition noFlags :: Flags where
  "noFlags = \<lparr>allSheets = False, useSheet = [], noColNames = False, stripColNames = False,
              tableMode = False, statsMode = False, asJson = False, asGo = False, asCSV = False\<rparr>"

text \<open>One sheet \<open>Sheet1\<close> with the columns Name, Alice, Bob and Age, 30, 25.\<close>

definition wbPeople :: Workbook where
  "wbPeople = \<lparr>sheetList = [''Sheet1''],
               colsOf = (\<lambda>s. if s = ''Sheet1''
                             then Inr [([''Name'', ''Alice'', ''Bob''], None),
                                       ([''Age'', ''30'', ''25''], None)]
                             else Inl ''sheet does not exist'')\<rparr>"

text \<open>Two sheets of one column each.\<close>

definition wbTwo :: Workbook where
  "wbTwo = \<lparr>sheetList = [''Sheet1'', ''Sheet2''],
            colsOf = (\<lambda>s. if s = ''Sheet1'' then Inr [([''x'', ''1''], None)]
                          else if s = ''Sheet2'' then Inr [([''a'', ''b''], None)]
                          else Inl ''sheet does not exist'')\<rparr>"

text \<open>One sheet with a column of four cells followed by a column of two.\<close>

definition wbRagged :: Workbook where
  "wbRagged = \<lparr>sheetList = [''Sheet1''],
               colsOf = (\<lambda>s. if s = ''Sheet1''
                             then Inr [([''h'', ''1'', ''2'', ''3''], None), ([''k'', ''1''], None)]
                             else Inl ''sheet does not exist'')\<rparr>"

definition cfgJson :: Flags where
  "cfgJson = noFlags\<lparr>asJson := True\<rparr>"

definition cfgTableStatsJson :: Flags where
  "cfgTableStatsJson = noFlags\<lparr>tableMode := True, statsMode := True, asJson := True\<rparr>"

definition cfgNoTitlesJson :: Flags where
  "cfgNoTitlesJson = noFlags\<lparr>noColNames := True, asJson := True\<rparr>"

definition cfgCsv :: Flags where
  "cfgCsv = noFlags\<lparr>asCSV := True\<rparr>"

definition cfgStripCsv :: Flags where
  "cfgStripCsv = noFlags\<lparr>stripColNames := True, asCSV := True\<rparr>"

definition cfgNoTitlesCsv :: Flags where
  "cfgNoTitlesCsv = noFlags\<lparr>noColNames := True, asCSV := True\<rparr>"

definition cfgSheet2Csv :: Flags where
  "cfgSheet2Csv = noFlags\<lparr>useSheet := ''Sheet2'', asCSV := True\<rparr>"

definition cfgMissingJson :: Flags where
  "cfgMissingJson = noFlags\<lparr>useSheet := ''Missing'', asJson := True\<rparr>"

text \<open>
  Two sheets, the second with a column without cells at index 1; one sheet with the header
  k twice.
\<close>

definition wbTwoGap :: Workbook where
  "wbTwoGap = \<lparr>sheetList = [''Sheet1'', ''Sheet2''],
               colsOf = (\<lambda>s. if s = ''Sheet1'' then Inr [([''x''], None), ([''y''], None)]
                             else if s = ''Sheet2''
                             then Inr [([''a''], None), ([], None), ([''c''], None)]
                             else Inl ''sheet does not exist'')\<rparr>"

definition wbDup :: Workbook where
  "wbDup = \<lparr>sheetList = [''Sheet1''],
            colsOf = (\<lambda>s. if s = ''Sheet1''
                          then Inr [([''k'', ''1''], None), ([''k'', ''2''], None)]
                          else Inl ''sheet does not exist'')\<rparr>"

definition cfgAllJson :: Flags where
  "cfgAllJson = noFlags\<lparr>allSheets := True, asJson := True\<rparr>"

definition stNamed :: State where
  "stNamed = initState\<lparr>bookTab := [''Sheet1'' \<mapsto> Map.empty]\<rparr>"

section \<open>The transposer\<close>

lemma fold_nth_upt: "fold (\<lambda>ci. g (xs ! ci)) [0..<length xs] a = fold g xs a"
proof -
  have "fold (\<lambda>ci. g (xs ! ci)) [0..<length xs] a = fold g (map (nth xs) [0..<length xs]) a"
    by (simp add: fold_map comp_def)
  then show ?thesis by (simp add: map_nth)
qed

lemma maxRows_Max: "maxRows records = Max (insert 0 (length ` set records))"
proof -
  have eq: "(\<lambda>col n. if length col > n then length col else n) = (\<lambda>col n. max (length col) n)"
    by (auto simp: fun_eq_iff max_def)
  have "maxRows records = fold (\<lambda>col n. if length col > n then length col else n) records 0"
    unfolding maxRows_def
    by (rule fold_nth_upt [of "\<lambda>col n. if length col > n then length col else n" records 0])
  also have "\<dots> = fold (\<lambda>col n. max (length col) n) records 0"
    by (simp only: eq)
  also have "\<dots> = fold max (map length records) 0"
    by (simp add: fold_map comp_def)
  also have "\<dots> = Max (set (0 # map length records))"
    by (simp only: Max.set_eq_fold)
  finally show ?thesis by simp
qed

lemma maxRows_ge: "ci < length records \<Longrightarrow> length (records ! ci) \<le> maxRows records"
  by (simp add: maxRows_Max)

lemma setCell_Some:
  "ri < length tab \<Longrightarrow> ci < length (tab ! ri) \<Longrightarrow>
   setCell tab ri ci v = Some (tab[ri := (tab ! ri)[ci := v]])"
  by (simp add: setCell_def)

lemma copyCol_spec:
  assumes "\<forall>ri\<in>set ris. ri < length tab" and "ci < n" and "\<forall>r<length tab. length (tab ! r) = n"
  shows "\<exists>tab'. copyCol b records ci ris tab = Some tab' \<and> length tab' = length tab \<and>
           (\<forall>r<length tab. length (tab' ! r) = n) \<and>
           (\<forall>r<length tab. \<forall>c<n. tab' ! r ! c =
              (if c = ci \<and> r \<in> set ris \<and> \<not> (b \<and> r = 0) then records ! ci ! r else tab ! r ! c))"
  using assms
proof (induction ris arbitrary: tab)
  case Nil
  then show ?case by simp
next
  case (Cons ri ris)
  show ?case
  proof (cases "b \<and> ri = 0")
    case True
    from Cons.prems have "\<forall>ri\<in>set ris. ri < length tab" by simp
    from Cons.IH [OF this Cons.prems(2) Cons.prems(3)] True
    show ?thesis by auto
  next
    case False
    let ?t1 = "tab[ri := (tab ! ri)[ci := records ! ci ! ri]]"
    from Cons.prems have ri: "ri < length tab" and cin: "ci < length (tab ! ri)" by simp_all
    have sc: "setCell tab ri ci (records ! ci ! ri) = Some ?t1"
      using ri cin by (rule setCell_Some)
    have a1: "\<forall>ri\<in>set ris. ri < length ?t1" using Cons.prems by simp
    have a3: "\<forall>r<length ?t1. length (?t1 ! r) = n"
    proof (intro allI impI)
      fix r assume "r < length ?t1"
      then have r: "r < length tab" by simp
      show "length (?t1 ! r) = n"
      proof (cases "r = ri")
        case True
        then show ?thesis using ri Cons.prems(3) by simp
      next
        case False
        then show ?thesis using r Cons.prems(3) by simp
      qed
    qed
    from Cons.IH [OF a1 Cons.prems(2) a3] obtain tab' where
      t: "copyCol b records ci ris ?t1 = Some tab'" "length tab' = length ?t1"
         "\<forall>r<length ?t1. length (tab' ! r) = n"
         "\<forall>r<length ?t1. \<forall>c<n. tab' ! r ! c =
              (if c = ci \<and> r \<in> set ris \<and> \<not> (b \<and> r = 0) then records ! ci ! r else ?t1 ! r ! c)"
      by blast
    have "copyCol b records ci (ri # ris) tab = Some tab'"
      using False sc t(1) by auto
    moreover have "length tab' = length tab" using t(2) by simp
    moreover have "\<forall>r<length tab. length (tab' ! r) = n" using t(3) by simp
    moreover have "\<forall>r<length tab. \<forall>c<n. tab' ! r ! c =
              (if c = ci \<and> r \<in> set (ri # ris) \<and> \<not> (b \<and> r = 0) then records ! ci ! r else tab ! r ! c)"
    proof (intro allI impI)
      fix r c assume r: "r < length tab" and c: "c < n"
      have "tab' ! r ! c = (if c = ci \<and> r \<in> set ris \<and> \<not> (b \<and> r = 0) then records ! ci ! r else ?t1 ! r ! c)"
        using t(4) r c by simp
      moreover have "?t1 ! r ! c = (if r = ri \<and> c = ci then records ! ci ! ri else tab ! r ! c)"
        using r c ri cin by (cases "r = ri") (auto simp: nth_list_update)
      ultimately show "tab' ! r ! c =
              (if c = ci \<and> r \<in> set (ri # ris) \<and> \<not> (b \<and> r = 0) then records ! ci ! r else tab ! r ! c)"
        using False by auto
    qed
    ultimately show ?thesis by blast
  qed
qed

lemma copyCols_spec:
  assumes "\<forall>ci\<in>set cis. ci < n \<and> length (records ! ci) \<le> length tab"
    and "\<forall>r<length tab. length (tab ! r) = n"
  shows "\<exists>tab'. copyCols b records cis tab = Some tab' \<and> length tab' = length tab \<and>
           (\<forall>r<length tab. length (tab' ! r) = n) \<and>
           (\<forall>r<length tab. \<forall>c<n. tab' ! r ! c =
              (if c \<in> set cis \<and> r < length (records ! c) \<and> \<not> (b \<and> r = 0)
               then records ! c ! r else tab ! r ! c))"
  using assms
proof (induction cis arbitrary: tab)
  case Nil
  then show ?case by simp
next
  case (Cons ci cis)
  from Cons.prems have ci: "ci < n" and len: "length (records ! ci) \<le> length tab" by simp_all
  have "\<forall>ri\<in>set [0..<length (records ! ci)]. ri < length tab" using len by simp
  from copyCol_spec [OF this ci Cons.prems(2), of b records] obtain t1 where
    t1: "copyCol b records ci [0..<length (records ! ci)] tab = Some t1" "length t1 = length tab"
        "\<forall>r<length tab. length (t1 ! r) = n"
        "\<forall>r<length tab. \<forall>c<n. t1 ! r ! c =
              (if c = ci \<and> r \<in> set [0..<length (records ! ci)] \<and> \<not> (b \<and> r = 0)
               then records ! ci ! r else tab ! r ! c)"
    by blast
  have a1: "\<forall>ci\<in>set cis. ci < n \<and> length (records ! ci) \<le> length t1"
    using Cons.prems(1) t1(2) by simp
  have a2: "\<forall>r<length t1. length (t1 ! r) = n" using t1(2,3) by simp
  from Cons.IH [OF a1 a2] obtain tab' where
    t: "copyCols b records cis t1 = Some tab'" "length tab' = length t1"
       "\<forall>r<length t1. length (tab' ! r) = n"
       "\<forall>r<length t1. \<forall>c<n. tab' ! r ! c =
              (if c \<in> set cis \<and> r < length (records ! c) \<and> \<not> (b \<and> r = 0)
               then records ! c ! r else t1 ! r ! c)"
    by blast
  have "copyCols b records (ci # cis) tab = Some tab'" using t1(1) t(1) by simp
  moreover have "length tab' = length tab" using t(2) t1(2) by simp
  moreover have "\<forall>r<length tab. length (tab' ! r) = n" using t(3) t1(2) by simp
  moreover have "\<forall>r<length tab. \<forall>c<n. tab' ! r ! c =
              (if c \<in> set (ci # cis) \<and> r < length (records ! c) \<and> \<not> (b \<and> r = 0)
               then records ! c ! r else tab ! r ! c)"
  proof (intro allI impI)
    fix r c assume r: "r < length tab" and c: "c < n"
    have "tab' ! r ! c = (if c \<in> set cis \<and> r < length (records ! c) \<and> \<not> (b \<and> r = 0)
               then records ! c ! r else t1 ! r ! c)"
      using t(4) t1(2) r c by simp
    moreover have "t1 ! r ! c = (if c = ci \<and> r < length (records ! ci) \<and> \<not> (b \<and> r = 0)
               then records ! ci ! r else tab ! r ! c)"
      using t1(4) r c by simp
    ultimately show "tab' ! r ! c =
              (if c \<in> set (ci # cis) \<and> r < length (records ! c) \<and> \<not> (b \<and> r = 0)
               then records ! c ! r else tab ! r ! c)"
      by auto
  qed
  ultimately show ?case by blast
qed

lemma transposeTab_spec:
  "\<exists>tab. transposeTab b records = Some tab \<and> length tab = maxRows records \<and>
         (\<forall>r<maxRows records. length (tab ! r) = length records) \<and>
         (\<forall>r<maxRows records. \<forall>c<length records. tab ! r ! c =
            (if r < length (records ! c) \<and> \<not> (b \<and> r = 0) then records ! c ! r else []))"
proof -
  let ?tab0 = "replicate (maxRows records) (replicate (length records) ([]::string))"
  have a1: "\<forall>ci\<in>set [0..<length records]. ci < length records \<and> length (records ! ci) \<le> length ?tab0"
    by (simp add: maxRows_ge)
  have a2: "\<forall>r<length ?tab0. length (?tab0 ! r) = length records" by simp
  from copyCols_spec [OF a1 a2, of b] obtain tab' where
    t: "copyCols b records [0..<length records] ?tab0 = Some tab'" "length tab' = length ?tab0"
       "\<forall>r<length ?tab0. length (tab' ! r) = length records"
       "\<forall>r<length ?tab0. \<forall>c<length records. tab' ! r ! c =
              (if c \<in> set [0..<length records] \<and> r < length (records ! c) \<and> \<not> (b \<and> r = 0)
               then records ! c ! r else ?tab0 ! r ! c)"
    by blast
  have "transposeTab b records = Some tab'" using t(1) by (simp add: transposeTab_def)
  moreover have "length tab' = maxRows records" using t(2) by simp
  moreover have "\<forall>r<maxRows records. length (tab' ! r) = length records" using t(3) by simp
  moreover have "\<forall>r<maxRows records. \<forall>c<length records. tab' ! r ! c =
            (if r < length (records ! c) \<and> \<not> (b \<and> r = 0) then records ! c ! r else [])"
  proof (intro allI impI)
    fix r c assume r: "r < maxRows records" and c: "c < length records"
    have "?tab0 ! r ! c = []" using r c by simp
    moreover have "tab' ! r ! c =
              (if c \<in> set [0..<length records] \<and> r < length (records ! c) \<and> \<not> (b \<and> r = 0)
               then records ! c ! r else ?tab0 ! r ! c)"
      using t(4) r c by simp
    ultimately show "tab' ! r ! c =
            (if r < length (records ! c) \<and> \<not> (b \<and> r = 0) then records ! c ! r else [])"
      using c by auto
  qed
  ultimately show ?thesis by blast
qed

section \<open>The loops\<close>

lemma sheetLoop_scope: "sheetLoop f mode wb sheets st = scopeLoop f mode wb (scope f sheets) st"
proof (induction sheets arbitrary: st)
  case Nil
  then show ?case by (simp add: scope_def)
next
  case (Cons sheet rest)
  show ?case
  proof (cases "useSheet f \<noteq> [] \<and> sheet \<noteq> useSheet f")
    case True
    then have "scope f (sheet # rest) = scope f rest" by (auto simp: scope_def)
    with True Cons.IH show ?thesis by simp
  next
    case False
    show ?thesis
    proof (cases "allSheets f")
      case True
      with False have "scope f (sheet # rest) = sheet # scope f rest" by (auto simp: scope_def)
      with True False Cons.IH show ?thesis by (auto split: sum.splits)
    next
      case no: False
      with False have "scope f (sheet # rest) = [sheet]" by (auto simp: scope_def)
      with no False show ?thesis by (auto split: sum.splits)
    qed
  qed
qed

lemma cellLoop_fields:
  "nRows (cellLoop f mode col rowi cells st) = nRows st + int (length cells) \<and>
   nCols (cellLoop f mode col rowi cells st) = nCols st \<and>
   nSheets (cellLoop f mode col rowi cells st) = nSheets st \<and>
   rowSize (cellLoop f mode col rowi cells st) = rowSize st \<and>
   sheetFound (cellLoop f mode col rowi cells st) = sheetFound st \<and>
   errOut (cellLoop f mode col rowi cells st) = errOut st \<and>
   bookTab (cellLoop f mode col rowi cells st) = bookTab st \<and>
   bookMat (cellLoop f mode col rowi cells st) = bookMat st \<and>
   (mode \<noteq> Stats \<longrightarrow> out (cellLoop f mode col rowi cells st) = out st)"
  by (induction cells arbitrary: st rowi) (simp_all add: Let_def)

lemma shapeStep_fields:
  assumes "shapeStep mode sheet col st = Inr st'"
  shows "nRows st' = nRows st \<and> nCols st' = nCols st \<and> nSheets st' = nSheets st \<and>
         rowSize st' = rowSize st \<and> sheetFound st' = sheetFound st \<and>
         errOut st' = errOut st \<and> out st' = out st"
  using assms by (cases mode) (auto simp: shapeStep_def split: if_splits option.splits)

lemma colStep_fields:
  assumes "colStep f mode sheet item st = Inr st'"
  shows "snd item = None \<and> nCols st' = nCols st + 1 \<and>
         nRows st' = nRows st + int (length (fst item)) \<and>
         rowSize st' = int (length (fst item)) \<and> nSheets st' = nSheets st \<and>
         sheetFound st' = sheetFound st \<and> errOut st' = errOut st \<and>
         (mode \<noteq> Stats \<longrightarrow> out st' = out st)"
proof -
  let ?st2 = "st\<lparr>nCols := nCols st + 1, rowSize := int (length (fst item))\<rparr>"
  from assms have none: "snd item = None"
    by (auto simp: colStep_def Let_def split: option.splits)
  with assms obtain st3 where s3: "shapeStep mode sheet (fst item) ?st2 = Inr st3"
    and st': "st' = cellLoop f mode (fst item) 0 (fst item) st3"
    by (auto simp: colStep_def Let_def split: sum.splits)
  from shapeStep_fields [OF s3] cellLoop_fields [of f mode "fst item" 0 "fst item" st3] none st'
  show ?thesis by simp
qed

lemma colLoop_fields:
  assumes "colLoop f mode sheet items st = Inr st'"
  shows "nCols st' = nCols st + int (length items) \<and>
         nRows st' = nRows st + int (sum_list (map length (map fst items))) \<and>
         rowSize st' = (if items = [] then rowSize st else int (lastLen (map fst items))) \<and>
         nSheets st' = nSheets st \<and> sheetFound st' = sheetFound st \<and> errOut st' = errOut st \<and>
         (mode \<noteq> Stats \<longrightarrow> out st' = out st)"
  using assms
proof (induction items arbitrary: st)
  case Nil
  then show ?case by simp
next
  case (Cons item items)
  from Cons.prems obtain st1 where s1: "colStep f mode sheet item st = Inr st1"
    and l: "colLoop f mode sheet items st1 = Inr st'"
    by (auto split: sum.splits)
  from colStep_fields [OF s1] Cons.IH [OF l] show ?case
    by (auto simp: lastLen_def)
qed

lemma lastLen_append: "lastLen (xs @ ys) = (if ys = [] then lastLen xs else lastLen ys)"
  by (simp add: lastLen_def)

lemma sheetStep_fields:
  assumes "sheetStep f mode wb sheet st = Inr st'"
  shows "nSheets st' = nSheets st + 1 \<and>
         nCols st' = nCols st + int (length (colsIn wb sheet)) \<and>
         nRows st' = nRows st + int (sum_list (map length (colsIn wb sheet))) \<and>
         rowSize st' = (if colsIn wb sheet = [] then rowSize st else int (lastLen (colsIn wb sheet))) \<and>
         sheetFound st' \<and> errOut st' = errOut st \<and> (mode \<noteq> Stats \<longrightarrow> out st' = out st)"
proof -
  let ?st4 = "st\<lparr>sheetFound := True, bookTab := (bookTab st)(sheet \<mapsto> Map.empty),
                 bookMat := (bookMat st)(sheet \<mapsto> []), nSheets := nSheets st + 1\<rparr>"
  from assms obtain items where c: "colsOf wb sheet = Inr items"
    and l: "colLoop f mode sheet items ?st4 = Inr st'"
    by (auto simp: sheetStep_def Let_def split: sum.splits)
  from colLoop_fields [OF l] c show ?thesis
    by (simp add: colsIn_def)
qed

lemma scopeLoop_fields:
  assumes "scopeLoop f mode wb sheets st = Inr st'"
  shows "nSheets st' = nSheets st + int (length sheets) \<and>
         nCols st' = nCols st + int (length (scopeCols wb sheets)) \<and>
         nRows st' = nRows st + int (sum_list (map length (scopeCols wb sheets))) \<and>
         rowSize st' = (if scopeCols wb sheets = [] then rowSize st
                        else int (lastLen (scopeCols wb sheets))) \<and>
         sheetFound st' = (sheetFound st \<or> sheets \<noteq> []) \<and> errOut st' = errOut st \<and>
         (mode \<noteq> Stats \<longrightarrow> out st' = out st)"
  using assms
proof (induction sheets arbitrary: st)
  case Nil
  then show ?case by (simp add: scopeCols_def)
next
  case (Cons sheet rest)
  from Cons.prems obtain st1 where s1: "sheetStep f mode wb sheet st = Inr st1"
    and l: "scopeLoop f mode wb rest st1 = Inr st'"
    by (auto split: sum.splits)
  have sc: "scopeCols wb (sheet # rest) = colsIn wb sheet @ scopeCols wb rest"
    by (simp add: scopeCols_def)
  from sheetStep_fields [OF s1] Cons.IH [OF l] show ?case
    unfolding sc by (auto simp: lastLen_append)
qed

text \<open>Every exit taken inside the loops is abnormal and leaves the writer as it was.\<close>

lemma shapeStep_Inl:
  assumes "shapeStep mode sheet col st = Inl r"
  shows "exitCode r \<noteq> 0 \<and> stdout r = out st \<and> mode = Map"
  using assms
  by (cases mode) (auto simp: shapeStep_def fatal_def panic_def split: if_splits option.splits)

lemma colStep_Inl:
  assumes "colStep f mode sheet item st = Inl r"
  shows "exitCode r \<noteq> 0 \<and> stdout r = out st"
proof (cases "snd item")
  case None
  with assms have "shapeStep mode sheet (fst item)
      (st\<lparr>nCols := nCols st + 1, rowSize := int (length (fst item))\<rparr>) = Inl r"
    by (auto simp: colStep_def Let_def split: sum.splits)
  from shapeStep_Inl [OF this] show ?thesis by simp
next
  case (Some err)
  with assms show ?thesis
    by (auto simp: colStep_def Let_def efatal_def fatal_def)
qed

lemma colLoop_Inl:
  assumes "colLoop f mode sheet items st = Inl r" and "mode \<noteq> Stats"
  shows "exitCode r \<noteq> 0 \<and> stdout r = out st"
  using assms
proof (induction items arbitrary: st)
  case Nil
  then show ?case by simp
next
  case (Cons item items)
  show ?case
  proof (cases "colStep f mode sheet item st")
    case (Inl r')
    with Cons.prems have "r' = r" by simp
    with Inl colStep_Inl show ?thesis by blast
  next
    case (Inr st1)
    with Cons.prems have "colLoop f mode sheet items st1 = Inl r" by simp
    from Cons.IH [OF this Cons.prems(2)] colStep_fields [OF Inr] Cons.prems(2)
    show ?thesis by simp
  qed
qed

lemma colLoop_Inl_exit:
  assumes "colLoop f mode sheet items st = Inl r"
  shows "exitCode r \<noteq> 0"
  using assms
proof (induction items arbitrary: st)
  case Nil
  then show ?case by simp
next
  case (Cons item items)
  then show ?case
    by (cases "colStep f mode sheet item st") (auto dest: colStep_Inl)
qed

lemma sheetStep_Inl:
  assumes "sheetStep f mode wb sheet st = Inl r"
  shows "exitCode r \<noteq> 0 \<and> (mode \<noteq> Stats \<longrightarrow> stdout r = out st)"
proof (cases "colsOf wb sheet")
  case (Inl err)
  with assms show ?thesis by (auto simp: sheetStep_def Let_def efatal_def fatal_def)
next
  case (Inr items)
  let ?st4 = "st\<lparr>sheetFound := True, bookTab := (bookTab st)(sheet \<mapsto> Map.empty),
                 bookMat := (bookMat st)(sheet \<mapsto> []), nSheets := nSheets st + 1\<rparr>"
  from Inr assms have l: "colLoop f mode sheet items ?st4 = Inl r"
    by (simp add: sheetStep_def Let_def)
  from colLoop_Inl_exit [OF l] colLoop_Inl [OF l] show ?thesis by auto
qed

lemma scopeLoop_Inl:
  assumes "scopeLoop f mode wb sheets st = Inl r"
  shows "exitCode r \<noteq> 0 \<and> (mode \<noteq> Stats \<longrightarrow> stdout r = out st)"
  using assms
proof (induction sheets arbitrary: st)
  case Nil
  then show ?case by simp
next
  case (Cons sheet rest)
  show ?case
  proof (cases "sheetStep f mode wb sheet st")
    case (Inl r')
    with Cons.prems have "r' = r" by simp
    with Inl sheetStep_Inl show ?thesis by blast
  next
    case (Inr st1)
    with Cons.prems have "scopeLoop f mode wb rest st1 = Inl r" by simp
    from Cons.IH [OF this] sheetStep_fields [OF Inr] show ?thesis by simp
  qed
qed

lemma emit_stderr:
  assumes "exitCode (emit f mode sheets st) = 0"
  shows "stderr (emit f mode sheets st) = errOut st"
  using assms
  by (auto simp: emit_def returnMain_def writeOut_def panic_def Let_def
           split: Mode.splits list.splits option.splits if_splits)

section \<open>Map mode and the other modes\<close>

lemma mapTable_Nil: "mapTable [] = Map.empty"
  by (simp add: mapTable_def)

lemma mapTable_Cons: "m(col ! 0 \<mapsto> drop 1 col) ++ mapTable cols = m ++ mapTable (col # cols)"
proof -
  have "mapTable (col # cols) = [col ! 0 \<mapsto> drop 1 col] ++ mapTable cols"
    by (simp add: mapTable_def entryOf_def)
  then have "m ++ mapTable (col # cols) = (m ++ [col ! 0 \<mapsto> drop 1 col]) ++ mapTable cols"
    by simp
  then show ?thesis by simp
qed

lemma mapTable_last_wins:
  assumes "\<forall>c\<in>set zs. c ! 0 \<noteq> col ! 0"
  shows "mapTable (xs @ col # zs) (col ! 0) = Some (drop 1 col)"
proof -
  have "map_of (rev (map entryOf zs)) (col ! 0) = None"
    using assms by (auto simp: entryOf_def map_of_eq_None_iff image_iff)
  then show ?thesis
    by (simp add: mapTable_def map_add_def entryOf_def)
qed

lemma cellLoop_books:
  "bookTab (cellLoop f mode col rowi cells st) = bookTab st \<and>
   bookMat (cellLoop f mode col rowi cells st) = bookMat st"
  using cellLoop_fields by blast

lemma colStep_Map_ok:
  assumes "okItem item" and "bookTab st sheet = Some m"
  shows "\<exists>st'. colStep f Map sheet item st = Inr st' \<and>
           bookTab st' = (bookTab st)(sheet \<mapsto> m(fst item ! 0 \<mapsto> drop 1 (fst item))) \<and>
           bookMat st' = bookMat st"
proof -
  let ?col = "fst item"
  let ?st2 = "st\<lparr>nCols := nCols st + 1, rowSize := int (length ?col)\<rparr>"
  let ?st3 = "?st2\<lparr>bookTab := (bookTab st)(sheet \<mapsto> m(?col ! 0 \<mapsto> drop 1 ?col))\<rparr>"
  from assms(1) have none: "snd item = None" and ne: "?col \<noteq> []" by (simp_all add: okItem_def)
  have "length ?col < 2 \<Longrightarrow> drop 1 ?col = []" by simp
  then have "shapeStep Map sheet ?col ?st2 = Inr ?st3"
    using ne assms(2) by (auto simp: shapeStep_def)
  then have "colStep f Map sheet item st = Inr (cellLoop f Map ?col 0 ?col ?st3)"
    using none by (simp add: colStep_def Let_def)
  then show ?thesis using cellLoop_books [of f Map ?col 0 ?col ?st3] by simp
qed

lemma colLoop_Map_ok:
  assumes "list_all okItem items" and "bookTab st sheet = Some m"
  shows "\<exists>st'. colLoop f Map sheet items st = Inr st' \<and>
           bookTab st' = (bookTab st)(sheet \<mapsto> m ++ mapTable (map fst items)) \<and>
           bookMat st' = bookMat st"
  using assms
proof (induction items arbitrary: st m)
  case Nil
  then show ?case by (simp add: mapTable_Nil map_upd_triv)
next
  case (Cons item items)
  from Cons.prems have ok: "okItem item" and oks: "list_all okItem items" by simp_all
  from colStep_Map_ok [OF ok Cons.prems(2), of f] obtain st1 where
    s1: "colStep f Map sheet item st = Inr st1"
    and t1: "bookTab st1 = (bookTab st)(sheet \<mapsto> m(fst item ! 0 \<mapsto> drop 1 (fst item)))"
    and m1: "bookMat st1 = bookMat st"
    by blast
  from t1 have "bookTab st1 sheet = Some (m(fst item ! 0 \<mapsto> drop 1 (fst item)))" by simp
  from Cons.IH [OF oks this] obtain st' where
    l: "colLoop f Map sheet items st1 = Inr st'"
    and t: "bookTab st' = (bookTab st1)(sheet \<mapsto>
              m(fst item ! 0 \<mapsto> drop 1 (fst item)) ++ mapTable (map fst items))"
    and m': "bookMat st' = bookMat st1"
    by blast
  have "colLoop f Map sheet (item # items) st = Inr st'" using s1 l by simp
  moreover have "bookTab st' = (bookTab st)(sheet \<mapsto> m ++ mapTable (map fst (item # items)))"
    using t t1 mapTable_Cons [of m "fst item" "map fst items"] by simp
  moreover have "bookMat st' = bookMat st" using m' m1 by simp
  ultimately show ?case by blast
qed

lemma colLoop_append:
  "colLoop f mode sheet (xs @ ys) st =
     (case colLoop f mode sheet xs st of Inl r \<Rightarrow> Inl r | Inr st1 \<Rightarrow> colLoop f mode sheet ys st1)"
  by (induction xs arbitrary: st) (auto split: sum.splits)

lemma scopeLoop_append:
  "scopeLoop f mode wb (xs @ ys) st =
     (case scopeLoop f mode wb xs st of Inl r \<Rightarrow> Inl r | Inr st1 \<Rightarrow> scopeLoop f mode wb ys st1)"
  by (induction xs arbitrary: st) (auto split: sum.splits)

lemma colStep_Map_zero:
  "colStep f Map sheet ([], None) st =
     Inl \<lparr>exitCode = 1,
          stderr = errOut st @ [[Str ''can't use Map mode with no title or values; col #:'',
                                Num (nCols st), Str ''sheet:'', Str sheet]],
          stdout = out st\<rparr>"
  by (simp add: colStep_def shapeStep_def fatal_def)

lemma colLoop_Map_zero:
  assumes "list_all okItem xs" and "bookTab st sheet = Some m"
  shows "colLoop f Map sheet (xs @ ([], None) # ys) st =
     Inl \<lparr>exitCode = 1,
          stderr = errOut st @ [[Str ''can't use Map mode with no title or values; col #:'',
                                Num (nCols st + int (length xs)), Str ''sheet:'', Str sheet]],
          stdout = out st\<rparr>"
proof -
  from colLoop_Map_ok [OF assms, of f] obtain st1 where
    l: "colLoop f Map sheet xs st = Inr st1" by blast
  from colLoop_fields [OF l] have "nCols st1 = nCols st + int (length xs)"
    "errOut st1 = errOut st" "out st1 = out st" by simp_all
  then show ?thesis using l by (simp add: colLoop_append colStep_Map_zero)
qed

lemma sheetStep_Map_ok:
  assumes "okSheet wb sheet"
  shows "\<exists>st'. sheetStep f Map wb sheet st = Inr st' \<and>
           bookTab st' = (bookTab st)(sheet \<mapsto> mapTable (colsIn wb sheet))"
proof -
  from assms obtain items where c: "colsOf wb sheet = Inr items" and ok: "list_all okItem items"
    by (auto simp: okSheet_def split: sum.splits)
  let ?st4 = "st\<lparr>sheetFound := True, bookTab := (bookTab st)(sheet \<mapsto> Map.empty),
                 bookMat := (bookMat st)(sheet \<mapsto> []), nSheets := nSheets st + 1\<rparr>"
  have "bookTab ?st4 sheet = Some Map.empty" by simp
  from colLoop_Map_ok [OF ok this, of f] obtain st' where
    l: "colLoop f Map sheet items ?st4 = Inr st'"
    and t: "bookTab st' = (bookTab ?st4)(sheet \<mapsto> Map.empty ++ mapTable (map fst items))"
    by blast
  have "sheetStep f Map wb sheet st = Inr st'" using c l by (simp add: sheetStep_def Let_def)
  moreover have "bookTab st' = (bookTab st)(sheet \<mapsto> mapTable (colsIn wb sheet))"
    using t c by (simp add: colsIn_def)
  ultimately show ?thesis by blast
qed

lemma scopeLoop_Map_ok:
  assumes "\<forall>s\<in>set sheets. okSheet wb s"
  shows "\<exists>st'. scopeLoop f Map wb sheets st = Inr st' \<and>
           bookTab st' = (\<lambda>s. if s \<in> set sheets then Some (mapTable (colsIn wb s)) else bookTab st s)"
  using assms
proof (induction sheets arbitrary: st)
  case Nil
  then show ?case by simp
next
  case (Cons sheet rest)
  from Cons.prems have ok: "okSheet wb sheet" and oks: "\<forall>s\<in>set rest. okSheet wb s" by simp_all
  from sheetStep_Map_ok [OF ok, of f st] obtain st1 where
    s1: "sheetStep f Map wb sheet st = Inr st1"
    and t1: "bookTab st1 = (bookTab st)(sheet \<mapsto> mapTable (colsIn wb sheet))"
    by blast
  from Cons.IH [OF oks, of st1] obtain st' where
    l: "scopeLoop f Map wb rest st1 = Inr st'"
    and t: "bookTab st' = (\<lambda>s. if s \<in> set rest then Some (mapTable (colsIn wb s)) else bookTab st1 s)"
    by blast
  have "scopeLoop f Map wb (sheet # rest) st = Inr st'" using s1 l by simp
  moreover have "bookTab st' =
      (\<lambda>s. if s \<in> set (sheet # rest) then Some (mapTable (colsIn wb s)) else bookTab st s)"
    using t t1 by (auto simp: fun_eq_iff)
  ultimately show ?case by blast
qed

lemma selectMode_Map:
  assumes "selectMode f = Map"
  shows "(asJson f \<or> asGo f) \<and> \<not> asCSV f"
  using assms by (auto simp: selectMode_def split: if_splits)

lemma scope_subset: "set (scope f sheets) \<subseteq> set sheets"
  by (auto simp: scope_def Let_def dest: in_set_takeD split: if_splits)

lemma run_Map_ok:
  assumes "selectMode f = Map" and "scope f (sheetList wb) \<noteq> []"
    and "\<forall>s\<in>set (scope f (sheetList wb)). okSheet wb s"
  shows "run f wb =
           \<lparr>exitCode = 0,
            stderr = [[Str ''info: #sheets read:'', Num (int (length (scope f (sheetList wb)))),
              Str ''#cols:'', Num (int (length (scopeCols wb (scope f (sheetList wb))))),
              Str ''#elements:'',
              Num (int (sum_list (map length (scopeCols wb (scope f (sheetList wb)))))),
              Str ''#nrows:'', Num (int (lastLen (scopeCols wb (scope f (sheetList wb)))))]],
            stdout = [(if asJson f then JsonEncode else GoSyntax)
                        (OfTab (\<lambda>s. if s \<in> set (scope f (sheetList wb))
                                     then Some (mapTable (colsIn wb s)) else None))]\<rparr>"
proof -
  let ?sc = "scope f (sheetList wb)"
  from scopeLoop_Map_ok [OF assms(3), of f initState] obtain st where
    l: "scopeLoop f Map wb ?sc initState = Inr st"
    and t: "bookTab st = (\<lambda>s. if s \<in> set ?sc then Some (mapTable (colsIn wb s))
                               else bookTab initState s)"
    by blast
  have flds: "nSheets st = int (length ?sc)"
    "nCols st = int (length (scopeCols wb ?sc))"
    "nRows st = int (sum_list (map length (scopeCols wb ?sc)))"
    "rowSize st = int (lastLen (scopeCols wb ?sc))"
    "errOut st = []" "out st = []" "sheetFound st"
    using scopeLoop_fields [OF l] assms(2) by (simp_all add: initState_def lastLen_def)
  have t': "bookTab st = (\<lambda>s. if s \<in> set ?sc then Some (mapTable (colsIn wb s)) else None)"
    using t by (simp add: initState_def cong: if_cong)
  from selectMode_Map [OF assms(1)] have fmt: "asJson f \<or> asGo f" by simp
  have "run f wb = emit f Map (sheetList wb) (st\<lparr>errOut := errOut st @ [infoLine st]\<rparr>)"
    using l assms(1) flds(7) by (simp add: run_def sheetLoop_scope Let_def)
  then show ?thesis using fmt flds t'
    by (auto simp: emit_def returnMain_def writeOut_def infoLine_def)
qed

lemma colStep_other:
  assumes "mode \<noteq> Map" and "snd item = None"
  shows "\<exists>st'. colStep f mode sheet item st = Inr st'"
proof (cases "colStep f mode sheet item st")
  case (Inl r)
  with assms(2) have "shapeStep mode sheet (fst item)
      (st\<lparr>nCols := nCols st + 1, rowSize := int (length (fst item))\<rparr>) = Inl r"
    by (auto simp: colStep_def Let_def split: sum.splits)
  from shapeStep_Inl [OF this] assms(1) show ?thesis by simp
next
  case (Inr st')
  then show ?thesis by blast
qed

lemma colLoop_other:
  assumes "mode \<noteq> Map" and "list_all (\<lambda>item. snd item = None) items"
  shows "\<exists>st'. colLoop f mode sheet items st = Inr st'"
  using assms(2)
proof (induction items arbitrary: st)
  case Nil
  then show ?case by simp
next
  case (Cons item items)
  from Cons.prems have "snd item = None" by simp
  from colStep_other [OF assms(1) this, of f sheet st] obtain st1 where
    "colStep f mode sheet item st = Inr st1" by blast
  moreover from Cons.IH [of st1] Cons.prems obtain st' where
    "colLoop f mode sheet items st1 = Inr st'" by auto
  ultimately show ?case by simp
qed

lemma sheetStep_other:
  assumes "mode \<noteq> Map" and "readable wb sheet"
  shows "\<exists>st'. sheetStep f mode wb sheet st = Inr st'"
proof -
  from assms(2) obtain items where c: "colsOf wb sheet = Inr items"
    and ok: "list_all (\<lambda>item. snd item = None) items"
    by (auto simp: readable_def split: sum.splits)
  from colLoop_other [OF assms(1) ok] c show ?thesis
    by (simp add: sheetStep_def Let_def)
qed

lemma scopeLoop_other:
  assumes "mode \<noteq> Map" and "\<forall>s\<in>set sheets. readable wb s"
  shows "\<exists>st'. scopeLoop f mode wb sheets st = Inr st'"
  using assms(2)
proof (induction sheets arbitrary: st)
  case Nil
  then show ?case by simp
next
  case (Cons sheet rest)
  from Cons.prems have "readable wb sheet" by simp
  from sheetStep_other [OF assms(1) this, of f st] obtain st1 where
    "sheetStep f mode wb sheet st = Inr st1" by blast
  moreover from Cons.IH [of st1] Cons.prems obtain st' where
    "scopeLoop f mode wb rest st1 = Inr st'" by auto
  ultimately show ?case by simp
qed

lemma emit_exit0:
  assumes "sheets \<noteq> []"
  shows "exitCode (emit f mode sheets st) = 0"
proof -
  obtain s rest where sh: "sheets = s # rest" using assms by (cases sheets) auto
  obtain tab where "transposeTab (noColNames f)
      (case bookMat st s of None \<Rightarrow> [] | Some cs \<Rightarrow> cs) = Some tab"
    using transposeTab_spec by blast
  then show ?thesis using sh
    by (cases mode) (simp_all add: emit_def returnMain_def writeOut_def Let_def)
qed

lemma run_other_ok:
  assumes "selectMode f \<noteq> Map" and "scope f (sheetList wb) \<noteq> []"
    and "\<forall>s\<in>set (scope f (sheetList wb)). readable wb s"
  shows "exitCode (run f wb) = 0"
proof -
  from scopeLoop_other [OF assms(1) assms(3), of f initState] obtain st where
    l: "scopeLoop f (selectMode f) wb (scope f (sheetList wb)) initState = Inr st" by blast
  from scopeLoop_fields [OF l] assms(2) have sf: "sheetFound st" by simp
  from assms(2) scope_subset [of f "sheetList wb"] have ne: "sheetList wb \<noteq> []" by auto
  have "run f wb = emit f (selectMode f) (sheetList wb) (st\<lparr>errOut := errOut st @ [infoLine st]\<rparr>)"
    using l sf by (simp add: run_def sheetLoop_scope Let_def)
  then show ?thesis using emit_exit0 [OF ne] by simp
qed

lemma run_Map_zero:
  assumes "selectMode f = Map" and "scope f (sheetList wb) = pre @ sheet # post"
    and "\<forall>s\<in>set pre. okSheet wb s"
    and "colsOf wb sheet = Inr (xs @ ([], None) # ys)" and "list_all okItem xs"
  shows "run f wb =
           \<lparr>exitCode = 1,
            stderr = [[Str ''can't use Map mode with no title or values; col #:'',
                       Num (int (length (scopeCols wb pre) + length xs)),
                       Str ''sheet:'', Str sheet]],
            stdout = []\<rparr>"
proof -
  from scopeLoop_Map_ok [OF assms(3), of f initState] obtain st where
    l: "scopeLoop f Map wb pre initState = Inr st" by blast
  from scopeLoop_fields [OF l] have flds: "nCols st = int (length (scopeCols wb pre))"
    "errOut st = []" "out st = []" by (simp_all add: initState_def)
  let ?st4 = "st\<lparr>sheetFound := True, bookTab := (bookTab st)(sheet \<mapsto> Map.empty),
                 bookMat := (bookMat st)(sheet \<mapsto> []), nSheets := nSheets st + 1\<rparr>"
  have "bookTab ?st4 sheet = Some Map.empty" by simp
  from colLoop_Map_zero [OF assms(5) this, of f ys]
  have "sheetStep f Map wb sheet st =
     Inl \<lparr>exitCode = 1,
          stderr = [[Str ''can't use Map mode with no title or values; col #:'',
                     Num (int (length (scopeCols wb pre) + length xs)),
                     Str ''sheet:'', Str sheet]],
          stdout = []\<rparr>"
    using assms(4) flds by (simp add: sheetStep_def Let_def)
  then show ?thesis using l assms(1,2)
    by (simp add: run_def sheetLoop_scope scopeLoop_append)
qed

section \<open>Matrix mode and the CSV run\<close>

lemma colStep_Matrix:
  assumes "snd item = None"
  shows "\<exists>st'. colStep f Matrix sheet item st = Inr st' \<and>
           bookMat st' = (bookMat st)
             (sheet \<mapsto> (case bookMat st sheet of None \<Rightarrow> [] | Some cs \<Rightarrow> cs) @ [fst item])"
  using assms cellLoop_books [of f Matrix "fst item" 0 "fst item"]
  by (simp add: colStep_def shapeStep_def Let_def)

lemma colLoop_Matrix:
  assumes "list_all (\<lambda>item. snd item = None) items" and "bookMat st sheet = Some cs"
  shows "\<exists>st'. colLoop f Matrix sheet items st = Inr st' \<and>
           bookMat st' = (bookMat st)(sheet \<mapsto> cs @ map fst items)"
  using assms
proof (induction items arbitrary: st cs)
  case Nil
  then show ?case by (simp add: map_upd_triv)
next
  case (Cons item items)
  from Cons.prems have ok: "snd item = None"
    and oks: "list_all (\<lambda>item. snd item = None) items" by simp_all
  from colStep_Matrix [OF ok, of f sheet st] Cons.prems(2) obtain st1 where
    s1: "colStep f Matrix sheet item st = Inr st1"
    and m1: "bookMat st1 = (bookMat st)(sheet \<mapsto> cs @ [fst item])"
    by auto
  from m1 have "bookMat st1 sheet = Some (cs @ [fst item])" by simp
  from Cons.IH [OF oks this] obtain st' where
    l: "colLoop f Matrix sheet items st1 = Inr st'"
    and m': "bookMat st' = (bookMat st1)(sheet \<mapsto> (cs @ [fst item]) @ map fst items)"
    by blast
  have "colLoop f Matrix sheet (item # items) st = Inr st'" using s1 l by simp
  moreover have "bookMat st' = (bookMat st)(sheet \<mapsto> cs @ map fst (item # items))"
    using m' m1 by simp
  ultimately show ?case by blast
qed

lemma sheetStep_Matrix:
  assumes "readable wb sheet"
  shows "\<exists>st'. sheetStep f Matrix wb sheet st = Inr st' \<and>
           bookMat st' = (bookMat st)(sheet \<mapsto> colsIn wb sheet)"
proof -
  from assms obtain items where c: "colsOf wb sheet = Inr items"
    and ok: "list_all (\<lambda>item. snd item = None) items"
    by (auto simp: readable_def split: sum.splits)
  let ?st4 = "st\<lparr>sheetFound := True, bookTab := (bookTab st)(sheet \<mapsto> Map.empty),
                 bookMat := (bookMat st)(sheet \<mapsto> []), nSheets := nSheets st + 1\<rparr>"
  have "bookMat ?st4 sheet = Some []" by simp
  from colLoop_Matrix [OF ok this, of f] obtain st' where
    l: "colLoop f Matrix sheet items ?st4 = Inr st'"
    and t: "bookMat st' = (bookMat ?st4)(sheet \<mapsto> [] @ map fst items)"
    by blast
  have "sheetStep f Matrix wb sheet st = Inr st'" using c l by (simp add: sheetStep_def Let_def)
  moreover have "bookMat st' = (bookMat st)(sheet \<mapsto> colsIn wb sheet)"
    using t c by (simp add: colsIn_def)
  ultimately show ?thesis by blast
qed

lemma scopeLoop_Matrix:
  assumes "\<forall>s\<in>set sheets. readable wb s"
  shows "\<exists>st'. scopeLoop f Matrix wb sheets st = Inr st' \<and>
           bookMat st' = (\<lambda>s. if s \<in> set sheets then Some (colsIn wb s) else bookMat st s)"
  using assms
proof (induction sheets arbitrary: st)
  case Nil
  then show ?case by simp
next
  case (Cons sheet rest)
  from Cons.prems have ok: "readable wb sheet" and oks: "\<forall>s\<in>set rest. readable wb s"
    by simp_all
  from sheetStep_Matrix [OF ok, of f st] obtain st1 where
    s1: "sheetStep f Matrix wb sheet st = Inr st1"
    and t1: "bookMat st1 = (bookMat st)(sheet \<mapsto> colsIn wb sheet)"
    by blast
  from Cons.IH [OF oks, of st1] obtain st' where
    l: "scopeLoop f Matrix wb rest st1 = Inr st'"
    and t: "bookMat st' = (\<lambda>s. if s \<in> set rest then Some (colsIn wb s) else bookMat st1 s)"
    by blast
  have "scopeLoop f Matrix wb (sheet # rest) st = Inr st'" using s1 l by simp
  moreover have "bookMat st' =
      (\<lambda>s. if s \<in> set (sheet # rest) then Some (colsIn wb s) else bookMat st s)"
    using t t1 by (auto simp: fun_eq_iff)
  ultimately show ?case by blast
qed

text \<open>
  The CSV run as a whole: the matrix transposed is the one stored under the first sheet of
  the document, which is that sheet's column list when the sheet is in scope and the empty
  matrix otherwise.
\<close>

lemma run_csv:
  assumes "asCSV f" and "\<not> asJson f" and "\<not> asGo f" and "\<not> statsMode f"
    and "sheetList wb = first # others"
    and "scope f (sheetList wb) \<noteq> []"
    and "\<forall>s\<in>set (scope f (sheetList wb)). readable wb s"
  shows "\<exists>tab. transposeTab (noColNames f)
                 (if first \<in> set (scope f (sheetList wb)) then colsIn wb first else []) = Some tab \<and>
               exitCode (run f wb) = 0 \<and> stdout (run f wb) = [CsvWriteAll tab]"
proof -
  let ?sc = "scope f (sheetList wb)"
  let ?records = "if first \<in> set ?sc then colsIn wb first else []"
  from assms(1,4) have mode: "selectMode f = Matrix" by (simp add: selectMode_def)
  from scopeLoop_Matrix [OF assms(7), of f initState] obtain st where
    l: "scopeLoop f Matrix wb ?sc initState = Inr st"
    and t: "bookMat st = (\<lambda>s. if s \<in> set ?sc then Some (colsIn wb s) else bookMat initState s)"
    by blast
  from scopeLoop_fields [OF l] assms(6) have flds: "sheetFound st" "out st = []"
    by (simp_all add: initState_def)
  have rec: "(case bookMat st first of None \<Rightarrow> [] | Some cs \<Rightarrow> cs) = ?records"
    using t by (simp add: initState_def)
  obtain tab where tab: "transposeTab (noColNames f) ?records = Some tab"
    using transposeTab_spec by blast
  have "run f wb = emit f Matrix (sheetList wb) (st\<lparr>errOut := errOut st @ [infoLine st]\<rparr>)"
    using l mode flds(1) by (simp add: run_def sheetLoop_scope Let_def)
  then have "exitCode (run f wb) = 0 \<and> stdout (run f wb) = [CsvWriteAll tab]"
    using assms(1,2,3,5) rec tab flds(2)
    by (simp add: emit_def returnMain_def writeOut_def Let_def)
  with tab show ?thesis by blast
qed

lemmas run_defs = run_def selectMode_def noFlags_def sheetStep_def colStep_def shapeStep_def
  initState_def emit_def transposeTab_def maxRows_def setCell_def writeOut_def returnMain_def
  infoLine_def fatal_def efatal_def panic_def TrimSpace_def isSpace_def

section \<open>Mode selection: claims C2 and C4\<close>

text \<open>
  Claim C2, as amended. The three assignments of lines 53 to 61 run in order and the last
  one that fires wins, so the priority is the reverse of their order: with none of
  \<open>-json\<close>, \<open>-go\<close>, \<open>-csv\<close> the mode is \<open>Stats\<close>; otherwise \<open>-stats\<close> gives \<open>Stats\<close>;
  otherwise \<open>-table\<close>, \<open>-striptitles\<close> or \<open>-csv\<close> gives \<open>Matrix\<close>; otherwise \<open>Map\<close>. The
  statement covers the configurations without \<open>-notitles\<close>, whose documented effect on the
  mode is the subject of C4.
\<close>

theorem selectMode_priority:
  assumes "\<not> noColNames f"
  shows "selectMode f =
           (if \<not> asJson f \<and> \<not> asGo f \<and> \<not> asCSV f then Stats
            else if statsMode f then Stats
            else if tableMode f \<or> stripColNames f \<or> asCSV f then Matrix
            else Map)"
  by (simp add: selectMode_def)

theorem selectMode_priority_witness:
  "\<not> noColNames cfgStripCsv \<and> selectMode cfgStripCsv = Matrix"
  using selectMode_priority [of cfgStripCsv]
  by (simp add: cfgStripCsv_def noFlags_def)

text \<open>
  C2 as stated fails: with \<open>-table -stats -json\<close> a matrix-forcing flag and the statistics
  flag are both set, and the mode is \<open>Stats\<close>.
\<close>

theorem selectMode_matrix_stats_counterexample:
  "tableMode cfgTableStatsJson \<and> statsMode cfgTableStatsJson \<and>
   selectMode cfgTableStatsJson = Stats \<and> selectMode cfgTableStatsJson \<noteq> Matrix"
  by (simp add: cfgTableStatsJson_def noFlags_def selectMode_def)

text \<open>
  Claim C4: \<open>-notitles\<close> is documented as forcing Matrix mode (line 30), but line 53 does
  not read it. With \<open>-notitles -json\<close> the mode is \<open>Map\<close> and the table printed is the
  header-keyed one.
\<close>

theorem notitles_json_builds_mapping:
  "noColNames cfgNoTitlesJson \<and> \<not> statsMode cfgNoTitlesJson \<and>
   selectMode cfgNoTitlesJson = Map \<and>
   stdout (run cfgNoTitlesJson wbPeople) =
     [JsonEncode (OfTab [''Sheet1'' \<mapsto> [''Name'' \<mapsto> [''Alice'', ''Bob''],
                                         ''Age'' \<mapsto> [''30'', ''25'']]])]"
  by (simp add: cfgNoTitlesJson_def run_defs wbPeople_def upt_rec)

section \<open>CSV output: claims C1, C3 and C7\<close>

text \<open>
  With the test of line 198 off, the grid is the padded transpose: as many rows as the
  longest column has cells, one field per column, the cell where the column has one and the
  empty string elsewhere; no index leaves its range.
\<close>

lemma transposeTab_no_skip:
  "\<exists>tab. transposeTab False records = Some tab \<and>
         length tab = Max (insert 0 (length ` set records)) \<and>
         (\<forall>r<length tab. length (tab ! r) = length records) \<and>
         (\<forall>r<length tab. \<forall>c<length records. tab ! r ! c =
            (if r < length (records ! c) then records ! c ! r else []))"
  using transposeTab_spec [of False records] by (auto simp: maxRows_Max)

text \<open>
  With that test on, row 0 is left blank and the grid keeps its height.
\<close>

lemma transposeTab_skip:
  "\<exists>tab. transposeTab True records = Some tab \<and>
         length tab = Max (insert 0 (length ` set records)) \<and>
         (\<forall>r<length tab. length (tab ! r) = length records) \<and>
         (\<forall>r<length tab. \<forall>c<length records. tab ! r ! c =
            (if r < length (records ! c) \<and> r \<noteq> 0 then records ! c ! r else []))"
  using transposeTab_spec [of True records] by (auto simp: maxRows_Max)

text \<open>
  Claim C1: \<open>-striptitles\<close> is documented as eliding the column names from the output
  (line 31), but the skip of line 198 tests \<open>-notitles\<close>. With \<open>-striptitles -csv\<close> on the
  two columns Name, Alice, Bob and Age, 30, 25 the header row is written and the grid has
  the three rows it has without the flag.
\<close>

theorem striptitles_csv_keeps_header_row:
  "stripColNames cfgStripCsv \<and> asCSV cfgStripCsv \<and>
   stdout (run cfgStripCsv wbPeople) =
     [CsvWriteAll [[''Name'', ''Age''], [''Alice'', ''30''], [''Bob'', ''25'']]] \<and>
   stdout (run cfgCsv wbPeople) = stdout (run cfgStripCsv wbPeople)"
  by (simp add: cfgStripCsv_def cfgCsv_def run_defs wbPeople_def upt_rec)

text \<open>
  Claim C3: line 179 takes the first sheet of the document, not the first sheet in scope.
  With \<open>-sheet Sheet2 -csv\<close> on a document whose sheets are Sheet1 and Sheet2, the scope is
  Sheet2 alone, its one column a, b is read, and the CSV written has no record.
\<close>

theorem csv_of_named_sheet_is_empty:
  "scope cfgSheet2Csv (sheetList wbTwo) = [''Sheet2''] \<and>
   colsIn wbTwo ''Sheet2'' = [[''a'', ''b'']] \<and>
   run cfgSheet2Csv wbTwo =
     \<lparr>exitCode = 0,
      stderr = [[Str ''info: #sheets read:'', Num 1, Str ''#cols:'', Num 1,
                 Str ''#elements:'', Num 2, Str ''#nrows:'', Num 2]],
      stdout = [CsvWriteAll []]\<rparr>"
  by (simp add: cfgSheet2Csv_def scope_def colsIn_def run_defs wbTwo_def upt_rec)

text \<open>
  Claim C7: header-stripping is not configured, yet with \<open>-notitles -csv\<close> the test of
  line 198 fires and row 0 of the grid holds empty strings where the claim has the cells at
  index 0, Name and Age.
\<close>

theorem notitles_csv_blanks_row_0:
  "\<not> stripColNames cfgNoTitlesCsv \<and> noColNames cfgNoTitlesCsv \<and>
   colsIn wbPeople ''Sheet1'' = [[''Name'', ''Alice'', ''Bob''], [''Age'', ''30'', ''25'']] \<and>
   stdout (run cfgNoTitlesCsv wbPeople) =
     [CsvWriteAll [['''', ''''], [''Alice'', ''30''], [''Bob'', ''25'']]]"
  by (simp add: cfgNoTitlesCsv_def colsIn_def run_defs wbPeople_def upt_rec)

section \<open>Diagnostics: claims C8 and C9\<close>

text \<open>
  Claim C8: when a sheet name is requested and no sheet of the document has it, the loop
  runs to its end without processing anything, the info line is written, then the fatal
  line with the requested name; the status is 1 and the writer has received nothing.
\<close>

theorem sheet_not_found:
  assumes "useSheet f \<noteq> []" and "useSheet f \<notin> set (sheetList wb)"
  shows "run f wb =
           \<lparr>exitCode = 1,
            stderr = [[Str ''info: #sheets read:'', Num 0, Str ''#cols:'', Num 0,
                       Str ''#elements:'', Num 0, Str ''#nrows:'', Num 0],
                      [Str ''could not find sheet by name of:'', Str (useSheet f)]],
            stdout = []\<rparr>"
proof -
  have "filter (\<lambda>sheet. useSheet f = [] \<or> sheet = useSheet f) (sheetList wb) = []"
    using assms by (auto simp: filter_empty_conv)
  then have "scope f (sheetList wb) = []" by (simp add: scope_def)
  then show ?thesis
    by (simp add: run_def sheetLoop_scope initState_def infoLine_def fatal_def)
qed

theorem sheet_not_found_witness:
  "useSheet cfgMissingJson \<noteq> [] \<and> useSheet cfgMissingJson \<notin> set (sheetList wbPeople) \<and>
   run cfgMissingJson wbPeople =
     \<lparr>exitCode = 1,
      stderr = [[Str ''info: #sheets read:'', Num 0, Str ''#cols:'', Num 0,
                 Str ''#elements:'', Num 0, Str ''#nrows:'', Num 0],
                [Str ''could not find sheet by name of:'', Str ''Missing'']],
      stdout = []\<rparr>"
proof -
  have h1: "useSheet cfgMissingJson \<noteq> []"
    by (simp add: cfgMissingJson_def noFlags_def)
  have h2: "useSheet cfgMissingJson \<notin> set (sheetList wbPeople)"
    by (simp add: cfgMissingJson_def noFlags_def wbPeople_def)
  have u: "useSheet cfgMissingJson = ''Missing''"
    by (simp add: cfgMissingJson_def noFlags_def)
  show ?thesis using h1 h2 sheet_not_found [OF h1 h2] by (simp add: u)
qed

text \<open>
  Claim C9: a run that ends with status 0 has written exactly one line to the diagnostic
  stream, whatever the mode: the number of sheets in scope, the number of their columns,
  the sum of the cell counts of these columns, and the cell count of the last of them.
\<close>

theorem info_line_on_success:
  assumes "exitCode (run f wb) = 0"
  shows "stderr (run f wb) =
           [[Str ''info: #sheets read:'', Num (int (length (scope f (sheetList wb)))),
             Str ''#cols:'', Num (int (length (scopeCols wb (scope f (sheetList wb))))),
             Str ''#elements:'',
             Num (int (sum_list (map length (scopeCols wb (scope f (sheetList wb)))))),
             Str ''#nrows:'', Num (int (lastLen (scopeCols wb (scope f (sheetList wb)))))]]"
proof (cases "scopeLoop f (selectMode f) wb (scope f (sheetList wb)) initState")
  case (Inl r)
  then have "run f wb = r" by (simp add: run_def sheetLoop_scope)
  with scopeLoop_Inl [OF Inl] assms show ?thesis by simp
next
  case (Inr st)
  let ?st1 = "st\<lparr>errOut := errOut st @ [infoLine st]\<rparr>"
  have flds: "nSheets st = int (length (scope f (sheetList wb)))"
    "nCols st = int (length (scopeCols wb (scope f (sheetList wb))))"
    "nRows st = int (sum_list (map length (scopeCols wb (scope f (sheetList wb)))))"
    "rowSize st = int (lastLen (scopeCols wb (scope f (sheetList wb))))"
    "errOut st = []"
    using scopeLoop_fields [OF Inr] by (simp_all add: initState_def lastLen_def)
  have run: "run f wb = (if \<not> sheetFound st
                then fatal ?st1 [Str ''could not find sheet by name of:'', Str (useSheet f)]
                else emit f (selectMode f) (sheetList wb) ?st1)"
    using Inr by (simp add: run_def sheetLoop_scope Let_def)
  show ?thesis
  proof (cases "sheetFound st")
    case False
    with run assms show ?thesis by (simp add: fatal_def)
  next
    case True
    with run have r: "run f wb = emit f (selectMode f) (sheetList wb) ?st1" by simp
    with assms have "stderr (run f wb) = errOut ?st1" by (simp add: emit_stderr)
    then show ?thesis using flds by (simp add: infoLine_def)
  qed
qed

theorem info_line_on_success_witness:
  "exitCode (run cfgJson wbRagged) = 0 \<and>
   stderr (run cfgJson wbRagged) =
     [[Str ''info: #sheets read:'', Num 1, Str ''#cols:'', Num 2,
       Str ''#elements:'', Num 6, Str ''#nrows:'', Num 2]]"
proof -
  have h: "exitCode (run cfgJson wbRagged) = 0"
    by (simp add: cfgJson_def run_defs wbRagged_def)
  have s: "scope cfgJson (sheetList wbRagged) = [''Sheet1'']"
    by (simp add: scope_def cfgJson_def noFlags_def wbRagged_def)
  have c: "scopeCols wbRagged [''Sheet1''] = [[''h'', ''1'', ''2'', ''3''], [''k'', ''1'']]"
    by (simp add: scopeCols_def colsIn_def wbRagged_def)
  show ?thesis using h info_line_on_success [OF h] by (simp add: s c lastLen_def)
qed

section \<open>Map mode: claims C5, C6 and C10\<close>

text \<open>
  Claim C5: a column processed in Map mode, in a sheet whose table exists, adds one entry
  to that table. A column of exactly one cell maps that cell to the empty sequence. A column
  of two or more cells maps the cell at index 0 to the cells after it: the column is that
  header followed by the recorded value, so the value holds the cells at indices 1, 2, ...
  in their order, with none added or dropped. The matrix collection is not touched.
\<close>

theorem mapping_entry_per_column:
  assumes "bookTab st sheet = Some m"
  shows "(length col = 1 \<longrightarrow>
            (\<exists>st'. colStep f Map sheet (col, None) st = Inr st' \<and>
                   bookTab st' = (bookTab st)(sheet \<mapsto> m(col ! 0 \<mapsto> [])) \<and>
                   bookMat st' = bookMat st)) \<and>
         (2 \<le> length col \<longrightarrow>
            (\<exists>st'. colStep f Map sheet (col, None) st = Inr st' \<and>
                   bookTab st' = (bookTab st)(sheet \<mapsto> m(col ! 0 \<mapsto> drop 1 col)) \<and>
                   bookMat st' = bookMat st \<and>
                   col = col ! 0 # drop 1 col \<and>
                   (\<forall>i<length col - 1. drop 1 col ! i = col ! (i + 1))))"
proof (intro conjI impI)
  assume one: "length col = 1"
  then have "okItem (col, None)" by (auto simp: okItem_def)
  from colStep_Map_ok [OF this assms, of f] one
  show "\<exists>st'. colStep f Map sheet (col, None) st = Inr st' \<and>
                   bookTab st' = (bookTab st)(sheet \<mapsto> m(col ! 0 \<mapsto> [])) \<and>
                   bookMat st' = bookMat st"
    by simp
next
  assume two: "2 \<le> length col"
  then have "okItem (col, None)" by (auto simp: okItem_def)
  from colStep_Map_ok [OF this assms, of f] obtain st' where
    s: "colStep f Map sheet (col, None) st = Inr st'"
       "bookTab st' = (bookTab st)(sheet \<mapsto> m(col ! 0 \<mapsto> drop 1 col))"
       "bookMat st' = bookMat st"
    by auto
  from two have c: "col = col ! 0 # drop 1 col" by (cases col) auto
  have "\<forall>i<length col - 1. drop 1 col ! i = col ! (i + 1)" by simp
  with s c show "\<exists>st'. colStep f Map sheet (col, None) st = Inr st' \<and>
                   bookTab st' = (bookTab st)(sheet \<mapsto> m(col ! 0 \<mapsto> drop 1 col)) \<and>
                   bookMat st' = bookMat st \<and>
                   col = col ! 0 # drop 1 col \<and>
                   (\<forall>i<length col - 1. drop 1 col ! i = col ! (i + 1))"
    by blast
qed

theorem mapping_entry_per_column_witness:
  "bookTab stNamed ''Sheet1'' = Some Map.empty \<and>
   (\<exists>st'. colStep cfgJson Map ''Sheet1'' ([''Name''], None) stNamed = Inr st' \<and>
          bookTab st' = [''Sheet1'' \<mapsto> [''Name'' \<mapsto> []]]) \<and>
   (\<exists>st'. colStep cfgJson Map ''Sheet1'' ([''Name'', ''Alice'', ''Bob''], None) stNamed = Inr st' \<and>
          bookTab st' = [''Sheet1'' \<mapsto> [''Name'' \<mapsto> [''Alice'', ''Bob'']]])"
proof -
  have h: "bookTab stNamed ''Sheet1'' = Some Map.empty"
    by (simp add: stNamed_def initState_def)
  have b: "bookTab stNamed = [''Sheet1'' \<mapsto> Map.empty]"
    by (simp add: stNamed_def initState_def)
  from mapping_entry_per_column [OF h, of "[''Name'']" cfgJson]
       mapping_entry_per_column [OF h, of "[''Name'', ''Alice'', ''Bob'']" cfgJson] h
  show ?thesis by (simp add: b) blast
qed

text \<open>
  Claim C6: in Map mode a column without cells ends the run with status 1 and one
  diagnostic line, with nothing handed to the writer (\<open>run_Map_zero\<close>), and in any other
  mode a workbook read without error ends with status 0 whatever its columns hold
  (\<open>run_other_ok\<close>). The number printed after \<open>col #:\<close> is \<open>nCols - 1\<close>, and \<open>nCols\<close>
  (lines 87 and 103) is not reset between sheets, so it is the column's index only in the
  first sheet processed. With \<open>-all -json\<close> on Sheet1 = x, y and Sheet2 = a, (no cell), c
  the empty column is at index 1 of Sheet2 and the line reads \<open>col #: 3 sheet: Sheet2\<close>.
\<close>

theorem zero_cell_column_reports_running_count:
  "selectMode cfgAllJson = Map \<and>
   scope cfgAllJson (sheetList wbTwoGap) = [''Sheet1'', ''Sheet2''] \<and>
   colsIn wbTwoGap ''Sheet2'' = [[''a''], [], [''c'']] \<and>
   colsIn wbTwoGap ''Sheet2'' ! 1 = [] \<and>
   run cfgAllJson wbTwoGap =
     \<lparr>exitCode = 1,
      stderr = [[Str ''can't use Map mode with no title or values; col #:'', Num 3,
                 Str ''sheet:'', Str ''Sheet2'']],
      stdout = []\<rparr>"
  by (simp add: cfgAllJson_def scope_def colsIn_def run_defs wbTwoGap_def)

text \<open>
  Claim C10: in Map mode, when a sheet in scope holds a column \<open>c1\<close> and, later, a column
  \<open>c2\<close> with the same cell at index 0, and no column after \<open>c2\<close> has that header, the run
  ends with status 0, the diagnostic stream holds the info line only, and in the table
  printed the header maps to the cells of \<open>c2\<close> after index 0: the entry of \<open>c1\<close> is
  replaced.
\<close>

theorem duplicate_header_last_column_wins:
  assumes "selectMode f = Map"
    and "\<forall>s\<in>set (scope f (sheetList wb)). okSheet wb s"
    and "sheet \<in> set (scope f (sheetList wb))"
    and "colsIn wb sheet = xs @ c1 # ys @ c2 # zs"
    and "c1 ! 0 = c2 ! 0" and "\<forall>c\<in>set zs. c ! 0 \<noteq> c2 ! 0"
  shows "\<exists>tb m a b c d.
           run f wb =
             \<lparr>exitCode = 0,
              stderr = [[Str ''info: #sheets read:'', Num a, Str ''#cols:'', Num b,
                         Str ''#elements:'', Num c, Str ''#nrows:'', Num d]],
              stdout = [(if asJson f then JsonEncode else GoSyntax) (OfTab tb)]\<rparr> \<and>
           tb sheet = Some m \<and> m (c1 ! 0) = Some (drop 1 c2)"
proof -
  let ?sc = "scope f (sheetList wb)"
  let ?tb = "\<lambda>s. if s \<in> set ?sc then Some (mapTable (colsIn wb s)) else None"
  from assms(3) have ne: "?sc \<noteq> []" by auto
  have "mapTable ((xs @ c1 # ys) @ c2 # zs) (c2 ! 0) = Some (drop 1 c2)"
    using assms(6) by (rule mapTable_last_wins)
  then have m: "mapTable (colsIn wb sheet) (c1 ! 0) = Some (drop 1 c2)"
    using assms(4,5) by simp
  have tb: "?tb sheet = Some (mapTable (colsIn wb sheet))" using assms(3) by simp
  from run_Map_ok [OF assms(1) ne assms(2)] tb m show ?thesis by blast
qed

theorem duplicate_header_last_column_wins_witness:
  "selectMode cfgJson = Map \<and> okSheet wbDup ''Sheet1'' \<and>
   colsIn wbDup ''Sheet1'' = [[''k'', ''1''], [''k'', ''2'']] \<and>
   (\<exists>tb m. stdout (run cfgJson wbDup) = [JsonEncode (OfTab tb)] \<and>
           exitCode (run cfgJson wbDup) = 0 \<and>
           tb ''Sheet1'' = Some m \<and> m ''k'' = Some [''2''])"
proof -
  have sc: "scope cfgJson (sheetList wbDup) = [''Sheet1'']"
    by (simp add: scope_def cfgJson_def noFlags_def wbDup_def)
  have h1: "selectMode cfgJson = Map"
    by (simp add: cfgJson_def noFlags_def selectMode_def)
  have ok: "okSheet wbDup ''Sheet1''"
    by (simp add: okSheet_def wbDup_def okItem_def)
  have h2: "\<forall>s\<in>set (scope cfgJson (sheetList wbDup)). okSheet wbDup s"
    using ok by (simp add: sc)
  have h3: "''Sheet1'' \<in> set (scope cfgJson (sheetList wbDup))" by (simp add: sc)
  have h4: "colsIn wbDup ''Sheet1'' = [] @ [''k'', ''1''] # [] @ [''k'', ''2''] # []"
    by (simp add: colsIn_def wbDup_def)
  have h5: "[''k'', ''1''] ! 0 = [''k'', ''2''] ! 0" by simp
  have h6: "\<forall>c\<in>set ([]::string list list). c ! 0 \<noteq> [''k'', ''2''] ! 0" by simp
  have j: "asJson cfgJson" by (simp add: cfgJson_def noFlags_def)
  from duplicate_header_last_column_wins [OF h1 h2 h3 h4 h5 h6] j h1 ok h4
  show ?thesis by auto
qed

end
